theory Spec2Isabelle
  imports Complex_Main "HOL-Library.Sublist"
begin

section \<open>Pixel Art Studio: the grid store, its history, the palette and the serializer\<close>

text \<open>
  The component of \<^verbatim>\<open>src/App.jsx\<close> keeps its state in React hooks and changes it in
  event handlers. Each handler is embedded as a function from the state of the render in
  which the event fires to the state of the next render. A state update function given to a
  setter is applied to the state it receives, once (the second call that React makes in
  development under \<^verbatim>\<open>StrictMode\<close> is not represented); the closures of a handler read
  the state of the render they were created in, and one event is handled per render.
\<close>

subsection \<open>JavaScript values\<close>

text \<open>
  The values the component stores come from \<^verbatim>\<open>JSON.parse\<close>, from string literals and from
  \<^verbatim>\<open>null\<close>; an array written past its end has holes, which read as \<^verbatim>\<open>undefined\<close>.
  \<open>JNum q\<close> is a finite double, given by its value \<open>q\<close>; \<open>JInf True\<close> is \<^verbatim>\<open>Infinity\<close> and
  \<open>JInf False\<close> is \<^verbatim>\<open>-Infinity\<close>, which \<^verbatim>\<open>JSON.parse\<close> returns for a number beyond the
  doubles. \<^verbatim>\<open>NaN\<close>, which \<^verbatim>\<open>JSON.parse\<close> never returns, the rounding of a decimal to the
  nearest double and the sign of zero are not represented. An object is the list of its
  own properties, each key once.
\<close>

datatype jsval =
    JUndefined
  | JNull
  | JBool bool
  | JNum rat
  | JInf bool
  | JStr string
  | JArr "jsval list"
  | JObj "(string \<times> jsval) list"

text \<open>
  Two outcomes end a handler without a next state: \<open>RangeError\<close> is the exception of
  \<^verbatim>\<open>Array(n)\<close> at an invalid length; \<open>OutsideModel\<close> marks a result that depends on
  what a list of values does not record: whether two structurally equal arrays or objects
  are the same reference, or a property of an array whose key is not an array index.
\<close>

datatype error = RangeError | OutsideModel

fun is_object :: "jsval \<Rightarrow> bool" where
  "is_object (JArr _) = True"
| "is_object (JObj _) = True"
| "is_object _ = False"

text \<open>
  \<^verbatim>\<open>a === b\<close>: values that differ in structure are never equal, primitives that agree
  are equal, and two arrays or objects that agree are equal exactly when they are one
  reference.
\<close>

definition strict_eq :: "jsval \<Rightarrow> jsval \<Rightarrow> error + bool" where
  "strict_eq a b =
     (if a \<noteq> b then Inr False
      else if is_object a then Inl OutsideModel
      else Inr True)"

text \<open>An array index is an integer from 0 to \<open>2^32 - 2\<close>.\<close>

definition array_index :: "rat \<Rightarrow> nat option" where
  "array_index q =
     (if 0 \<le> q \<and> q < 4294967295 \<and> q = of_int \<lfloor>q\<rfloor> then Some (nat \<lfloor>q\<rfloor>) else None)"

text \<open>\<^verbatim>\<open>xs[q]\<close> on an array that has no other properties than its elements.\<close>

definition array_get :: "jsval list \<Rightarrow> rat \<Rightarrow> jsval" where
  "array_get xs q =
     (case array_index q of
        None \<Rightarrow> JUndefined
      | Some i \<Rightarrow> if i < length xs then xs ! i else JUndefined)"

text \<open>
  \<^verbatim>\<open>xs[q] = v\<close>: inside the array the element is replaced, past its end the array grows
  and the cells between are holes.
\<close>

definition array_set :: "jsval list \<Rightarrow> rat \<Rightarrow> jsval \<Rightarrow> error + jsval list" where
  "array_set xs q v =
     (case array_index q of
        None \<Rightarrow> Inl OutsideModel
      | Some i \<Rightarrow>
          if i < length xs then Inr (xs[i := v])
          else Inr (xs @ replicate (i - length xs) JUndefined @ [v]))"

text \<open>\<^verbatim>\<open>Array(n).fill(v)\<close>.\<close>

definition Array_fill :: "rat \<Rightarrow> jsval \<Rightarrow> error + jsval list" where
  "Array_fill n v =
     (if 0 \<le> n \<and> n \<le> 4294967295 \<and> n = of_int \<lfloor>n\<rfloor> then Inr (replicate (nat \<lfloor>n\<rfloor>) v)
      else Inl RangeError)"

text \<open>\<^verbatim>\<open>a ?? b\<close>.\<close>

definition nullish :: "jsval \<Rightarrow> jsval \<Rightarrow> jsval" where
  "nullish a b = (if a = JUndefined \<or> a = JNull then b else a)"

text \<open>\<^verbatim>\<open>!v\<close>.\<close>

fun falsy :: "jsval \<Rightarrow> bool" where
  "falsy JUndefined = True"
| "falsy JNull = True"
| "falsy (JBool b) = (\<not> b)"
| "falsy (JNum n) = (n = 0)"
| "falsy (JInf _) = False"
| "falsy (JStr s) = (s = [])"
| "falsy (JArr _) = False"
| "falsy (JObj _) = False"

subsection \<open>Utility helpers\<close>

text \<open>
  \<^verbatim>\<open>const clamp = (n, min, max) => Math.max(min, Math.min(max, n));\<close> for a finite
  \<open>n\<close>, and for \<open>n\<close> one of the two infinities: \<^verbatim>\<open>Math.min(max, Infinity)\<close> is \<^verbatim>\<open>max\<close>
  and \<^verbatim>\<open>Math.min(max, -Infinity)\<close> is \<^verbatim>\<open>-Infinity\<close>.
\<close>

definition clamp :: "rat \<Rightarrow> rat \<Rightarrow> rat \<Rightarrow> rat" where
  "clamp n lo hi = max lo (min hi n)"

definition clamp_inf :: "bool \<Rightarrow> rat \<Rightarrow> rat \<Rightarrow> rat" where
  "clamp_inf positive lo hi = (if positive then max lo hi else lo)"

subsection \<open>The state of the component\<close>

text \<open>
  One field for each hook of \<^verbatim>\<open>PixelArtStudio\<close>; \<open>gridSize\<close> is the hook \<^verbatim>\<open>size\<close> and
  \<open>drawingRef\<close> is \<^verbatim>\<open>drawingRef.current\<close>. The pixel buffer is an array in every state
  after the effect of the first render (see \<open>resetPixels\<close> below).
\<close>

record state =
  gridSize :: rat
  pixelSize :: rat
  showGrid :: bool
  currentColor :: jsval
  palette :: "jsval list"
  tool :: string
  pixels :: "jsval list"
  undoStack :: "jsval list list"
  redoStack :: "jsval list list"
  drawingRef :: bool

text \<open>\<^verbatim>\<open>const idx = (x, y) => y * size + x;\<close>\<close>

definition idx :: "state \<Rightarrow> nat \<Rightarrow> nat \<Rightarrow> rat" where
  "idx s x y = of_nat y * gridSize s + of_nat x"

subsection \<open>The effect that resets the pixels when the size changes\<close>

text \<open>
  The update function of the effect,
  \<^verbatim>\<open>(prev) => { if (!Array.isArray(prev) || prev.length !== size * size)
               return Array(size * size).fill(null); return prev; }\<close>,
  on any stored value \<open>prev\<close>.
\<close>

definition resetPixels :: "rat \<Rightarrow> jsval \<Rightarrow> error + jsval list" where
  "resetPixels sz prev =
     (case prev of
        JArr xs \<Rightarrow>
          if of_nat (length xs) \<noteq> sz * sz then Array_fill (sz * sz) JNull else Inr xs
      | _ \<Rightarrow> Array_fill (sz * sz) JNull)"

text \<open>
  The effect has the dependencies \<^verbatim>\<open>[size, setPixels]\<close>: after a render it runs when
  \<^verbatim>\<open>size\<close> is not the size of the render before (\<open>prevSize\<close>).
\<close>

definition sizeEffect :: "rat \<Rightarrow> state \<Rightarrow> error + state" where
  "sizeEffect prevSize s =
     (if gridSize s = prevSize then Inr s
      else case resetPixels (gridSize s) (JArr (pixels s)) of
             Inl e \<Rightarrow> Inl e
           | Inr p \<Rightarrow> Inr (s\<lparr>pixels := p\<rparr>))"

text \<open>
  The size input: \<^verbatim>\<open>onChange={(e) => setSize(clamp(parseInt(e.target.value || "0"), 2, 256))}\<close>.
  The argument is the integer that \<^verbatim>\<open>parseInt\<close> returns; a text for which it returns
  \<^verbatim>\<open>NaN\<close> is not represented.
\<close>

definition onChangeSize :: "int \<Rightarrow> state \<Rightarrow> state" where
  "onChangeSize n s = s\<lparr>gridSize := clamp (of_int n) 2 256\<rparr>"

text \<open>A change of the size input followed by the render and its effect.\<close>

definition resize :: "int \<Rightarrow> state \<Rightarrow> error + state" where
  "resize n s = sizeEffect (gridSize s) (onChangeSize n s)"

subsection \<open>History\<close>

definition pushHistory :: "jsval list \<Rightarrow> state \<Rightarrow> state" where
  "pushHistory prev s = s\<lparr>undoStack := undoStack s @ [prev], redoStack := []\<rparr>"

definition undo :: "state \<Rightarrow> state" where
  "undo s =
     (let u = undoStack s in
      if length u = 0 then s
      else
        let prev = u ! (length u - 1) in
        s\<lparr>redoStack := redoStack s @ [pixels s], pixels := prev, undoStack := butlast u\<rparr>)"

definition redo :: "state \<Rightarrow> state" where
  "redo s =
     (let r = redoStack s in
      if length r = 0 then s
      else
        let next = r ! (length r - 1) in
        s\<lparr>undoStack := undoStack s @ [pixels s], pixels := next, redoStack := butlast r\<rparr>)"

subsection \<open>Painting\<close>

text \<open>
  \<^verbatim>\<open>handlePaint\<close> gives \<^verbatim>\<open>setPixels\<close> an update function; \<open>paintUpdate\<close> is that
  function, with the index \<open>i\<close> it computes.
\<close>

definition paintUpdate :: "rat \<Rightarrow> jsval \<Rightarrow> jsval list \<Rightarrow> error + jsval list" where
  "paintUpdate i color prev =
     (case strict_eq (array_get prev i) color of
        Inl e \<Rightarrow> Inl e
      | Inr True \<Rightarrow> Inr prev
      | Inr False \<Rightarrow> array_set prev i color)"

definition handlePaint :: "nat \<Rightarrow> nat \<Rightarrow> jsval \<Rightarrow> state \<Rightarrow> error + state" where
  "handlePaint x y color s =
     (case paintUpdate (idx s x y) color (pixels s) of
        Inl e \<Rightarrow> Inl e
      | Inr p \<Rightarrow> Inr (s\<lparr>pixels := p\<rparr>))"

definition onPointerDown :: "nat \<Rightarrow> nat \<Rightarrow> state \<Rightarrow> error + state" where
  "onPointerDown x y s =
     (let s1 = pushHistory (pixels s) (s\<lparr>drawingRef := True\<rparr>) in
      if tool s = ''pen'' then handlePaint x y (currentColor s) s1
      else if tool s = ''eraser'' then handlePaint x y JNull s1
      else if tool s = ''eyedropper'' then
        (let c = nullish (array_get (pixels s) (idx s x y)) (JStr ''#ffffff'') in
         Inr (s1\<lparr>currentColor := c, tool := ''pen''\<rparr>))
      else Inr s1)"

definition onPointerEnter :: "nat \<Rightarrow> nat \<Rightarrow> state \<Rightarrow> error + state" where
  "onPointerEnter x y s =
     (if \<not> drawingRef s then Inr s
      else if tool s = ''pen'' then handlePaint x y (currentColor s) s
      else if tool s = ''eraser'' then handlePaint x y JNull s
      else Inr s)"

definition onPointerUp :: "state \<Rightarrow> state" where
  "onPointerUp s = s\<lparr>drawingRef := False\<rparr>"

definition clearAll :: "state \<Rightarrow> error + state" where
  "clearAll s =
     (let s1 = pushHistory (pixels s) s in
      case Array_fill (gridSize s * gridSize s) JNull of
        Inl e \<Rightarrow> Inl e
      | Inr p \<Rightarrow> Inr (s1\<lparr>pixels := p\<rparr>))"

definition fillBackground :: "state \<Rightarrow> error + state" where
  "fillBackground s =
     (let s1 = pushHistory (pixels s) s in
      case Array_fill (gridSize s * gridSize s) (currentColor s) of
        Inl e \<Rightarrow> Inl e
      | Inr p \<Rightarrow> Inr (s1\<lparr>pixels := p\<rparr>))"

text \<open>
  A gesture: the pointer goes down on a cell, enters the cells of \<open>cells\<close> in turn, and
  goes up.
\<close>

fun drag :: "(nat \<times> nat) list \<Rightarrow> state \<Rightarrow> error + state" where
  "drag [] s = Inr s"
| "drag ((x, y) # cells) s =
     (case onPointerEnter x y s of
        Inl e \<Rightarrow> Inl e
      | Inr s' \<Rightarrow> drag cells s')"

definition gesture :: "nat \<Rightarrow> nat \<Rightarrow> (nat \<times> nat) list \<Rightarrow> state \<Rightarrow> error + state" where
  "gesture x y cells s =
     (case onPointerDown x y s of
        Inl e \<Rightarrow> Inl e
      | Inr s1 \<Rightarrow>
          (case drag cells s1 of
             Inl e \<Rightarrow> Inl e
           | Inr s2 \<Rightarrow> Inr (onPointerUp s2)))"

subsection \<open>The palette\<close>

text \<open>
  \<^verbatim>\<open>Set.prototype.add\<close> on the elements in insertion order. A value that is in the set is
  not added again; an array or object with the structure of an element is that element
  only when it is the same reference.
\<close>

definition set_add :: "jsval list \<Rightarrow> jsval \<Rightarrow> error + jsval list" where
  "set_add acc v =
     (if v \<in> set acc then (if is_object v then Inl OutsideModel else Inr acc)
      else Inr (acc @ [v]))"

text \<open>\<^verbatim>\<open>Array.from(new Set(xs))\<close>, starting from the elements \<open>acc\<close>.\<close>

fun new_Set :: "jsval list \<Rightarrow> jsval list \<Rightarrow> error + jsval list" where
  "new_Set acc [] = Inr acc"
| "new_Set acc (v # vs) =
     (case set_add acc v of
        Inl e \<Rightarrow> Inl e
      | Inr acc' \<Rightarrow> new_Set acc' vs)"

text \<open>
  The update function of "Add to palette":
  \<^verbatim>\<open>(p) => Array.from(new Set([currentColor, ...p])).slice(0, 24)\<close>.
\<close>

definition addToPalette :: "jsval \<Rightarrow> jsval list \<Rightarrow> error + jsval list" where
  "addToPalette c p =
     (case new_Set [] (c # p) of
        Inl e \<Rightarrow> Inl e
      | Inr xs \<Rightarrow> Inr (take 24 xs))"

definition onAddToPalette :: "state \<Rightarrow> error + state" where
  "onAddToPalette s =
     (case addToPalette (currentColor s) (palette s) of
        Inl e \<Rightarrow> Inl e
      | Inr p \<Rightarrow> Inr (s\<lparr>palette := p\<rparr>))"

text \<open>The update function of "Remove": \<^verbatim>\<open>(p) => p.filter((c) => c !== currentColor)\<close>.\<close>

fun removeFromPalette :: "jsval \<Rightarrow> jsval list \<Rightarrow> error + jsval list" where
  "removeFromPalette cur [] = Inr []"
| "removeFromPalette cur (c # p) =
     (case strict_eq c cur of
        Inl e \<Rightarrow> Inl e
      | Inr same \<Rightarrow>
          (case removeFromPalette cur p of
             Inl e \<Rightarrow> Inl e
           | Inr p' \<Rightarrow> Inr (if same then p' else c # p')))"

definition onRemoveFromPalette :: "state \<Rightarrow> error + state" where
  "onRemoveFromPalette s =
     (case removeFromPalette (currentColor s) (palette s) of
        Inl e \<Rightarrow> Inl e
      | Inr p \<Rightarrow> Inr (s\<lparr>palette := p\<rparr>))"

subsection \<open>Export and import of the document\<close>

text \<open>
  The least magnitude that \<^verbatim>\<open>JSON.parse\<close> reads as an infinity: the midpoint between
  the largest double and \<open>2 ^ 1024\<close>.
\<close>

definition double_overflow :: rat where
  "double_overflow = 2 ^ 1024 - 2 ^ 970"

text \<open>
  \<^verbatim>\<open>JSON.parse(JSON.stringify(v))\<close>: an \<^verbatim>\<open>undefined\<close> element of an array (a hole as
  well) is written as \<^verbatim>\<open>null\<close>, and so is an infinity; a property whose value is
  \<^verbatim>\<open>undefined\<close> is left out; a finite number is written with its digits and read back,
  as an infinity when it is beyond the doubles; every other value is read back as it was
  written.
\<close>

fun json_of :: "jsval \<Rightarrow> jsval" where
  "json_of JUndefined = JNull"
| "json_of JNull = JNull"
| "json_of (JBool b) = JBool b"
| "json_of (JNum q) = (if \<bar>q\<bar> < double_overflow then JNum q else JInf (0 < q))"
| "json_of (JInf positive) = JNull"
| "json_of (JStr str) = JStr str"
| "json_of (JArr xs) = JArr (map json_of xs)"
| "json_of (JObj ps) =
     JObj (map (\<lambda>p. (fst p, json_of (snd p))) (filter (\<lambda>p. snd p \<noteq> JUndefined) ps))"

text \<open>
  The values that are written and read back unchanged: no \<^verbatim>\<open>undefined\<close> and no infinity
  at any depth, every number within the doubles.
\<close>

fun writable :: "jsval \<Rightarrow> bool" where
  "writable JUndefined = False"
| "writable JNull = True"
| "writable (JBool b) = True"
| "writable (JNum q) = (\<bar>q\<bar> < double_overflow)"
| "writable (JInf positive) = False"
| "writable (JStr str) = True"
| "writable (JArr xs) = list_all writable xs"
| "writable (JObj ps) = list_all (\<lambda>p. writable (snd p)) ps"

text \<open>The payload of \<^verbatim>\<open>exportJSON\<close>; \<open>now\<close> is the value of \<^verbatim>\<open>Date.now()\<close>.\<close>

definition exportJSON :: "rat \<Rightarrow> state \<Rightarrow> jsval" where
  "exportJSON now s =
     JObj [(''version'', JNum 1),
           (''size'', JNum (gridSize s)),
           (''pixels'', JArr (pixels s)),
           (''palette'', JArr (palette s)),
           (''meta'', JObj [(''createdAt'', JNum now)])]"

text \<open>
  What \<^verbatim>\<open>JSON.parse\<close> makes of the text of a file: it throws, or it returns a value.
\<close>

datatype parsed = SyntaxError | Parsed jsval

text \<open>The downloaded file of \<^verbatim>\<open>exportJSON\<close>, parsed.\<close>

definition exportedFile :: "rat \<Rightarrow> state \<Rightarrow> parsed" where
  "exportedFile now s = Parsed (json_of (exportJSON now s))"

text \<open>
  \<^verbatim>\<open>data.k\<close> for \<open>k\<close> one of \<^verbatim>\<open>size\<close>, \<^verbatim>\<open>pixels\<close>, \<^verbatim>\<open>palette\<close>: an own property of an
  object; no prototype has these, so every other truthy value gives \<^verbatim>\<open>undefined\<close>.
\<close>

fun get_prop :: "jsval \<Rightarrow> string \<Rightarrow> jsval" where
  "get_prop (JObj ps) k = (case map_of ps k of Some v \<Rightarrow> v | None \<Rightarrow> JUndefined)"
| "get_prop _ k = JUndefined"

text \<open>\<^verbatim>\<open>typeof v === "number"\<close>\<close>

fun is_number :: "jsval \<Rightarrow> bool" where
  "is_number (JNum _) = True"
| "is_number (JInf _) = True"
| "is_number _ = False"

text \<open>\<^verbatim>\<open>clamp(v, 2, 256)\<close> for a number \<open>v\<close>.\<close>

fun clampedSize :: "jsval \<Rightarrow> rat option" where
  "clampedSize (JNum n) = Some (clamp n 2 256)"
| "clampedSize (JInf positive) = Some (clamp_inf positive 2 256)"
| "clampedSize _ = None"

fun isArray :: "jsval \<Rightarrow> bool" where
  "isArray (JArr _) = True"
| "isArray _ = False"

text \<open>
  \<^verbatim>\<open>importJSON(file)\<close> with the handler of the reader: \<open>None\<close> is no file. The second
  component of the result tells whether \<^verbatim>\<open>alert("Invalid JSON file")\<close> was called.
\<close>

definition importJSON :: "parsed option \<Rightarrow> state \<Rightarrow> state \<times> bool" where
  "importJSON file s =
     (case file of
        None \<Rightarrow> (s, False)
      | Some SyntaxError \<Rightarrow> (s, True)
      | Some (Parsed data) \<Rightarrow>
          if falsy data \<or> \<not> is_number (get_prop data ''size'')
             \<or> \<not> isArray (get_prop data ''pixels'')
          then (s, True)
          else
            (case (clampedSize (get_prop data ''size''), get_prop data ''pixels'') of
               (Some c, JArr px) \<Rightarrow>
                 (let s1 = s\<lparr>gridSize := c, pixels := px\<rparr> in
                  (case get_prop data ''palette'' of
                     JArr pal \<Rightarrow> (s1\<lparr>palette := pal\<rparr>, False)
                   | _ \<Rightarrow> (s1, False)))
             | _ \<Rightarrow> (s, True)))"

subsection \<open>Export of the bitmap\<close>

text \<open>
  \<^verbatim>\<open>exportPNG\<close> draws on a canvas of \<^verbatim>\<open>size\<close> by \<^verbatim>\<open>size\<close> units; the embedding is the
  sequence of the calls on its context, before the copy onto the larger canvas.
\<close>

datatype call =
    SetFillStyle jsval
  | FillRect rat rat rat rat
  | SetStrokeStyle string
  | SetLineWidth rat
  | BeginPath
  | MoveTo rat rat
  | LineTo rat rat
  | Stroke

text \<open>\<^verbatim>\<open>for (let i = start; i < bound; i++) body(i)\<close>\<close>

function for_lt :: "nat \<Rightarrow> rat \<Rightarrow> (nat \<Rightarrow> call list) \<Rightarrow> call list" where
  "for_lt i bound body = (if of_nat i < bound then body i @ for_lt (Suc i) bound body else [])"
  by pat_completeness auto
termination
proof (relation "measure (\<lambda>(i, bound, body). nat \<lceil>bound\<rceil> - i)")
  show "wf (measure (\<lambda>(i, bound, body). nat \<lceil>bound\<rceil> - i))" by simp
next
  fix i :: nat and bound :: rat and body :: "nat \<Rightarrow> call list"
  assume "of_nat i < bound"
  then have "int i < \<lceil>bound\<rceil>" by (simp add: less_ceiling_iff)
  then show "((Suc i, bound, body), (i, bound, body))
             \<in> measure (\<lambda>(i, bound, body). nat \<lceil>bound\<rceil> - i)"
    by simp
qed

text \<open>\<^verbatim>\<open>for (let i = start; i <= bound; i++) body(i)\<close>\<close>

function for_le :: "nat \<Rightarrow> rat \<Rightarrow> (nat \<Rightarrow> call list) \<Rightarrow> call list" where
  "for_le i bound body = (if of_nat i \<le> bound then body i @ for_le (Suc i) bound body else [])"
  by pat_completeness auto
termination
proof (relation "measure (\<lambda>(i, bound, body). nat (\<lfloor>bound\<rfloor> + 1) - i)")
  show "wf (measure (\<lambda>(i, bound, body). nat (\<lfloor>bound\<rfloor> + 1) - i))" by simp
next
  fix i :: nat and bound :: rat and body :: "nat \<Rightarrow> call list"
  assume "of_nat i \<le> bound"
  then have "int i \<le> \<lfloor>bound\<rfloor>" by (simp add: le_floor_iff)
  then show "((Suc i, bound, body), (i, bound, body))
             \<in> measure (\<lambda>(i, bound, body). nat (\<lfloor>bound\<rfloor> + 1) - i)"
    by simp
qed

text \<open>The two equations are unfolded by hand, one iteration at a time.\<close>

declare for_lt.simps [simp del] for_le.simps [simp del]

definition paintCell :: "state \<Rightarrow> nat \<Rightarrow> nat \<Rightarrow> call list" where
  "paintCell s y x =
     (let color = array_get (pixels s) (idx s x y) in
      if \<not> falsy color then [SetFillStyle color, FillRect (of_nat x) (of_nat y) 1 1]
      else [])"

definition gridLines :: "state \<Rightarrow> nat \<Rightarrow> call list" where
  "gridLines s i =
     [BeginPath, MoveTo (of_nat i) 0, LineTo (of_nat i) (gridSize s), Stroke,
      BeginPath, MoveTo 0 (of_nat i), LineTo (gridSize s) (of_nat i), Stroke]"

definition exportPNG :: "bool \<Rightarrow> state \<Rightarrow> call list" where
  "exportPNG withGrid s =
     [SetFillStyle (JStr ''#ffffff''), FillRect 0 0 (gridSize s) (gridSize s)]
     @ for_lt 0 (gridSize s) (\<lambda>y. for_lt 0 (gridSize s) (paintCell s y))
     @ (if withGrid
        then [SetStrokeStyle ''#e5e7eb'', SetLineWidth (2 / 100)]
             @ for_le 0 (gridSize s) (gridLines s)
        else [])"

subsection \<open>Events\<close>

text \<open>
  The events of the controls, each with the render that follows it: a handler that sets
  the size is followed by the effect on the pixels.
\<close>

datatype event =
    PointerDown nat nat
  | PointerEnter nat nat
  | PointerUp
  | ClearAll
  | FillBackground
  | Undo
  | Redo
  | ChangeSize int
  | Import "parsed option"
  | AddToPalette
  | RemoveFromPalette
  | SetTool string
  | SetCurrentColor jsval

fun step :: "event \<Rightarrow> state \<Rightarrow> error + state" where
  "step (PointerDown x y) s = onPointerDown x y s"
| "step (PointerEnter x y) s = onPointerEnter x y s"
| "step PointerUp s = Inr (onPointerUp s)"
| "step ClearAll s = clearAll s"
| "step FillBackground s = fillBackground s"
| "step Undo s = Inr (undo s)"
| "step Redo s = Inr (redo s)"
| "step (ChangeSize n) s = resize n s"
| "step (Import file) s = sizeEffect (gridSize s) (fst (importJSON file s))"
| "step AddToPalette s = onAddToPalette s"
| "step RemoveFromPalette s = onRemoveFromPalette s"
| "step (SetTool t) s = Inr (s\<lparr>tool := t\<rparr>)"
| "step (SetCurrentColor c) s = Inr (s\<lparr>currentColor := c\<rparr>)"

fun run :: "event list \<Rightarrow> state \<Rightarrow> error + state" where
  "run [] s = Inr s"
| "run (e # es) s =
     (case step e s of
        Inl err \<Rightarrow> Inl err
      | Inr s' \<Rightarrow> run es s')"

text \<open>The events whose handlers call \<^verbatim>\<open>pushHistory\<close>.\<close>

fun records :: "event \<Rightarrow> bool" where
  "records (PointerDown x y) = True"
| "records ClearAll = True"
| "records FillBackground = True"
| "records _ = False"

subsection \<open>States for the examples\<close>

text \<open>The state of a first visit: every hook has its default.\<close>

definition initial :: state where
  "initial =
     \<lparr>gridSize = 32, pixelSize = 16, showGrid = True, currentColor = JStr ''#1f2937'',
      palette = map JStr [''#000000'', ''#ffffff'', ''#ef4444'', ''#f59e0b'', ''#10b981'',
                          ''#3b82f6'', ''#8b5cf6''],
      tool = ''pen'', pixels = replicate 1024 JNull, undoStack = [], redoStack = [],
      drawingRef = False\<rparr>"

text \<open>The state after the size input is set to 2.\<close>

definition small :: state where
  "small = initial\<lparr>gridSize := 2, pixels := [JNull, JNull, JNull, JNull]\<rparr>"

text \<open>The state after a stroke of the pen over the cells (1,1) and (0,1) of \<open>small\<close>.\<close>

definition painted :: state where
  "painted =
     small\<lparr>pixels := [JNull, JNull, JStr ''#1f2937'', JStr ''#1f2937''],
           undoStack := [[JNull, JNull, JNull, JNull]]\<rparr>"

text \<open>The same with the eyedropper selected, and after a click of it on the cell (1,1).\<close>

definition picking :: state where
  "picking = painted\<lparr>tool := ''eyedropper''\<rparr>"

definition picked :: state where
  "picked = picking\<lparr>drawingRef := True, undoStack := undoStack picking @ [pixels picking],
                     redoStack := [], currentColor := JStr ''#1f2937'', tool := ''pen''\<rparr>"

text \<open>\<open>painted\<close> after the pen goes down on the cell (1,1), which has the colour of the pen.\<close>

definition repainted :: state where
  "repainted = painted\<lparr>drawingRef := True,
                        undoStack := undoStack painted @ [pixels painted], redoStack := []\<rparr>"

text \<open>\<open>small\<close> after the pen has painted the cell (1,1).\<close>

definition dotted :: state where
  "dotted = small\<lparr>pixels := [JNull, JNull, JNull, JStr ''#1f2937'']\<rparr>"

text \<open>
  Documents for the import: one whose size is a string, one with the size of \<open>small\<close> and
  no pixels, one with a size above the range, a single pixel and a palette.
\<close>

definition badSize :: jsval where
  "badSize = JObj [(''version'', JNum 1), (''size'', JStr ''32''), (''pixels'', JArr [])]"

definition shortDoc :: jsval where
  "shortDoc = JObj [(''size'', JNum 2), (''pixels'', JArr [])]"




definition infDoc :: jsval where
  "infDoc = JObj [(''size'', JNum 2), (''pixels'', JArr [JInf True, JNull, JNull, JNull])]"

text \<open>\<open>small\<close> after the import of \<open>infDoc\<close>.\<close>

definition bright :: state where
  "bright = small\<lparr>pixels := [JInf True, JNull, JNull, JNull]\<rparr>"

text \<open>
  \<open>painted\<close> after Clear, the size input set to 3, and Undo: the size is 3 and the buffer
  is the one of \<open>painted\<close>, with 4 elements.
\<close>

definition stale :: state where
  "stale = painted\<lparr>gridSize := 3, redoStack := [replicate 9 JNull]\<rparr>"


text \<open>
  The state after the size input is set to 2, \<open>shortDoc\<close> is imported and the pen goes
  down on the cell (1,1): the write at index 3 of the empty array leaves three holes.
\<close>

definition holed :: state where
  "holed = small\<lparr>pixels := [JUndefined, JUndefined, JUndefined, JStr ''#1f2937''],
                  undoStack := [[]], drawingRef := True\<rparr>"

section \<open>Arrays and cells\<close>

lemma array_index_of_nat: "n < 4294967295 \<Longrightarrow> array_index (of_nat n) = Some n"
  by (simp add: array_index_def)

lemma array_index_inj: "array_index q = Some i \<Longrightarrow> q = of_nat i"
  by (auto simp: array_index_def split: if_splits)

lemma array_get_of_nat:
  "n < 4294967295 \<Longrightarrow> array_get xs (of_nat n) = (if n < length xs then xs ! n else JUndefined)"
  by (simp add: array_get_def array_index_of_nat)

lemma array_set_of_nat:
  "n < 4294967295 \<Longrightarrow>
     array_set xs (of_nat n) v =
       Inr (if n < length xs then xs[n := v] else xs @ replicate (n - length xs) JUndefined @ [v])"
  by (simp add: array_set_def array_index_of_nat)

lemma array_get_set_same:
  assumes "array_set xs q v = Inr ys"
  shows "array_get ys q = v"
proof -
  from assms obtain i where i: "array_index q = Some i"
    by (auto simp: array_set_def split: option.splits)
  show ?thesis
  proof (cases "i < length xs")
    case True
    with assms i show ?thesis by (auto simp: array_set_def array_get_def)
  next
    case False
    with assms i have "ys = xs @ replicate (i - length xs) JUndefined @ [v]"
      by (auto simp: array_set_def)
    with False i show ?thesis by (simp add: array_get_def nth_append)
  qed
qed

lemma array_get_set_other:
  assumes "array_set xs q v = Inr ys" and "q' \<noteq> q"
  shows "array_get ys q' = array_get xs q'"
proof (cases "array_index q'")
  case None
  then show ?thesis by (simp add: array_get_def)
next
  case (Some j)
  from assms obtain i where i: "array_index q = Some i"
    by (auto simp: array_set_def split: option.splits)
  from assms(2) Some i have ne: "j \<noteq> i" by (auto dest!: array_index_inj)
  show ?thesis
  proof (cases "i < length xs")
    case True
    with assms i Some ne show ?thesis by (auto simp: array_set_def array_get_def)
  next
    case False
    with assms i have ys: "ys = xs @ replicate (i - length xs) JUndefined @ [v]"
      by (auto simp: array_set_def)
    show ?thesis
    proof (cases "j < length xs")
      case True
      with ys Some show ?thesis by (simp add: array_get_def nth_append)
    next
      case False
      with ys Some ne \<open>\<not> i < length xs\<close> show ?thesis
        by (auto simp: array_get_def nth_append nth_Cons' less_Suc_eq)
    qed
  qed
qed

lemma paintUpdate_prim:
  assumes "\<not> is_object c"
  shows "paintUpdate q c prev = (if array_get prev q = c then Inr prev else array_set prev q c)"
  using assms by (simp add: paintUpdate_def strict_eq_def)

lemma idx_of_nat: "gridSize s = of_nat n \<Longrightarrow> idx s x y = of_nat (y * n + x)"
  by (simp add: idx_def)

lemma cell_index_bound:
  assumes "x < n" "y < n" "n \<le> (256::nat)"
  shows "y * n + x < 65536"
proof -
  from assms have "y * n \<le> 255 * 256" by (intro mult_le_mono) auto
  with assms show ?thesis by simp
qed

lemma Array_fill_of_nat:
  "n \<le> 4294967295 \<Longrightarrow> Array_fill (of_nat n) v = Inr (replicate n v)"
  by (simp add: Array_fill_def)

lemma square_bound:
  assumes "n \<le> (256::nat)"
  shows "n * n \<le> 4294967295"
proof -
  from assms have "n * n \<le> 256 * 256" by (intro mult_le_mono)
  then show ?thesis by simp
qed

lemma Array_fill_square:
  assumes "gridSize s = of_nat n" and "n \<le> 256"
  shows "Array_fill (gridSize s * gridSize s) v = Inr (replicate (n * n) v)"
proof -
  have "gridSize s * gridSize s = of_nat (n * n)" using assms(1) by simp
  then show ?thesis
    using Array_fill_of_nat[OF square_bound[OF assms(2)], of v] by (simp only:)
qed

section \<open>History\<close>

subsection \<open>What each handler does to the two stacks\<close>

lemma handlePaint_history:
  "handlePaint x y c s = Inr s' \<Longrightarrow> undoStack s' = undoStack s \<and> redoStack s' = redoStack s"
  by (auto simp: handlePaint_def split: sum.splits)

lemma onPointerEnter_history:
  "onPointerEnter x y s = Inr s' \<Longrightarrow> undoStack s' = undoStack s \<and> redoStack s' = redoStack s"
  by (auto simp: onPointerEnter_def dest: handlePaint_history split: if_splits)

lemma drag_history:
  "drag cells s = Inr s' \<Longrightarrow> undoStack s' = undoStack s \<and> redoStack s' = redoStack s"
proof (induction cells arbitrary: s)
  case Nil
  then show ?case by simp
next
  case (Cons c cells)
  obtain x y where c: "c = (x, y)" by (cases c)
  from Cons.prems c obtain s1 where e: "onPointerEnter x y s = Inr s1" and d: "drag cells s1 = Inr s'"
    by (auto split: sum.splits)
  from Cons.IH[OF d] onPointerEnter_history[OF e] show ?case by simp
qed

lemma onPointerDown_history:
  "onPointerDown x y s = Inr s' \<Longrightarrow> undoStack s' = undoStack s @ [pixels s] \<and> redoStack s' = []"
  by (auto simp: onPointerDown_def Let_def pushHistory_def dest!: handlePaint_history split: if_splits)

lemma gesture_history:
  assumes "gesture x y cells s = Inr s'"
  shows "undoStack s' = undoStack s @ [pixels s] \<and> redoStack s' = []"
proof -
  from assms obtain s1 s2 where d: "onPointerDown x y s = Inr s1" and g: "drag cells s1 = Inr s2"
    and u: "s' = onPointerUp s2"
    by (auto simp: gesture_def split: sum.splits)
  from onPointerDown_history[OF d] drag_history[OF g] u show ?thesis
    by (simp add: onPointerUp_def)
qed

lemma clearAll_history:
  "clearAll s = Inr s' \<Longrightarrow> undoStack s' = undoStack s @ [pixels s] \<and> redoStack s' = []"
  by (auto simp: clearAll_def Let_def pushHistory_def split: sum.splits)

lemma fillBackground_history:
  "fillBackground s = Inr s' \<Longrightarrow> undoStack s' = undoStack s @ [pixels s] \<and> redoStack s' = []"
  by (auto simp: fillBackground_def Let_def pushHistory_def split: sum.splits)

lemma undo_top:
  "undoStack s = u @ [p] \<Longrightarrow>
     undo s = s\<lparr>redoStack := redoStack s @ [pixels s], pixels := p, undoStack := u\<rparr>"
  by (simp add: undo_def Let_def)

lemma redo_top:
  "redoStack s = r @ [p] \<Longrightarrow>
     redo s = s\<lparr>undoStack := undoStack s @ [pixels s], pixels := p, redoStack := r\<rparr>"
  by (simp add: redo_def Let_def)

lemma redo_undo:
  assumes "undoStack s = u @ [p]" and "redoStack s = []"
  shows "pixels (undo s) = p \<and> redo (undo s) = s"
proof -
  have "redoStack (undo s) = [] @ [pixels s]" using assms by (simp add: undo_top)
  from redo_top[OF this] assms show ?thesis by (simp add: undo_top)
qed

lemma step_redo_length:
  assumes "step e s = Inr s'"
  shows "length (redoStack s') \<le> length (redoStack s) + (if e = Undo then 1 else 0)"
proof (cases e)
  case (PointerDown x y)
  with assms show ?thesis using onPointerDown_history[of x y s s'] by auto
next
  case (PointerEnter x y)
  with assms show ?thesis using onPointerEnter_history[of x y s s'] by auto
next
  case PointerUp
  with assms show ?thesis by (auto simp: onPointerUp_def)
next
  case ClearAll
  with assms show ?thesis using clearAll_history[of s s'] by auto
next
  case FillBackground
  with assms show ?thesis using fillBackground_history[of s s'] by auto
next
  case Undo
  with assms show ?thesis by (auto simp: undo_def Let_def)
next
  case Redo
  with assms show ?thesis by (auto simp: redo_def Let_def)
next
  case (ChangeSize n)
  with assms show ?thesis
    by (auto simp: resize_def sizeEffect_def onChangeSize_def split: if_splits sum.splits)
next
  case (Import f)
  with assms show ?thesis
    by (auto simp: sizeEffect_def importJSON_def Let_def
             split: if_splits sum.splits option.splits parsed.splits jsval.splits)
next
  case AddToPalette
  with assms show ?thesis by (auto simp: onAddToPalette_def split: sum.splits)
next
  case RemoveFromPalette
  with assms show ?thesis by (auto simp: onRemoveFromPalette_def split: sum.splits)
next
  case (SetTool t)
  with assms show ?thesis by auto
next
  case (SetCurrentColor c)
  with assms show ?thesis by auto
qed

lemma run_redo_length:
  "run es s = Inr s' \<Longrightarrow>
     length (redoStack s') \<le> length (redoStack s) + length (filter (\<lambda>ev. ev = Undo) es)"
proof (induction es arbitrary: s)
  case Nil
  then show ?case by simp
next
  case (Cons e es)
  from Cons.prems obtain s1 where e: "step e s = Inr s1" and r: "run es s1 = Inr s'"
    by (auto split: sum.splits)
  from Cons.IH[OF r] step_redo_length[OF e] show ?case by (auto split: if_splits)
qed

lemma run_append:
  "run (es1 @ es2) s = (case run es1 s of Inl err \<Rightarrow> Inl err | Inr s1 \<Rightarrow> run es2 s1)"
  by (induction es1 arbitrary: s) (auto split: sum.splits)

lemma step_records_redo:
  "records e \<Longrightarrow> step e s = Inr s' \<Longrightarrow> redoStack s' = []"
  by (cases e) (auto dest: onPointerDown_history clearAll_history fillBackground_history)

lemma handlePaint_same:
  assumes "array_get (pixels s) (idx s x y) = c" and "\<not> is_object c"
  shows "handlePaint x y c s = Inr s"
  using assms by (simp add: handlePaint_def paintUpdate_def strict_eq_def)

lemma onPointerDown_eyedropper:
  assumes "tool s = ''eyedropper''"
  shows "onPointerDown x y s =
            Inr (s\<lparr>drawingRef := True, undoStack := undoStack s @ [pixels s], redoStack := [],
                   currentColor := nullish (array_get (pixels s) (idx s x y)) (JStr ''#ffffff''),
                   tool := ''pen''\<rparr>)"
  using assms by (simp add: onPointerDown_def pushHistory_def Let_def)

lemma onPointerDown_pen_same:
  assumes "tool s = ''pen''" and "array_get (pixels s) (idx s x y) = currentColor s"
    and "\<not> is_object (currentColor s)"
  shows "onPointerDown x y s =
            Inr (s\<lparr>drawingRef := True, undoStack := undoStack s @ [pixels s],
                   redoStack := []\<rparr>)"
proof -
  let ?s1 = "pushHistory (pixels s) (s\<lparr>drawingRef := True\<rparr>)"
  have "array_get (pixels ?s1) (idx ?s1 x y) = currentColor s"
    using assms by (simp add: pushHistory_def idx_def)
  with assms have "handlePaint x y (currentColor s) ?s1 = Inr ?s1"
    by (simp add: handlePaint_same)
  with assms show ?thesis by (simp add: onPointerDown_def Let_def pushHistory_def)
qed

lemma onPointerDown_eraser_same:
  assumes "tool s = ''eraser''" and "array_get (pixels s) (idx s x y) = JNull"
  shows "onPointerDown x y s =
            Inr (s\<lparr>drawingRef := True, undoStack := undoStack s @ [pixels s],
                   redoStack := []\<rparr>)"
proof -
  let ?s1 = "pushHistory (pixels s) (s\<lparr>drawingRef := True\<rparr>)"
  have "array_get (pixels ?s1) (idx ?s1 x y) = JNull"
    using assms by (simp add: pushHistory_def idx_def)
  then have "handlePaint x y JNull ?s1 = Inr ?s1"
    by (simp add: handlePaint_same)
  with assms show ?thesis by (simp add: onPointerDown_def Let_def pushHistory_def)
qed

subsection \<open>The handlers return a state on a grid\<close>

lemma clearAll_returns:
  assumes "gridSize s = of_nat n" and "n \<le> 256"
  shows "clearAll s = Inr (pushHistory (pixels s) s\<lparr>pixels := replicate (n * n) JNull\<rparr>)"
  by (simp add: clearAll_def Array_fill_square[OF assms])

lemma fillBackground_returns:
  assumes "gridSize s = of_nat n" and "n \<le> 256"
  shows "fillBackground s =
           Inr (pushHistory (pixels s) s\<lparr>pixels := replicate (n * n) (currentColor s)\<rparr>)"
  by (simp add: fillBackground_def Array_fill_square[OF assms])

lemma handlePaint_returns:
  assumes "gridSize s = of_nat n" and "n \<le> 256" and "x < n" and "y < n" and "\<not> is_object c"
  shows "\<exists>s'. handlePaint x y c s = Inr s'"
proof -
  have b: "y * n + x < 4294967295" using cell_index_bound[OF assms(3,4,2)] by simp
  have q: "idx s x y = of_nat (y * n + x)" using assms(1) by (rule idx_of_nat)
  obtain ys where "array_set (pixels s) (idx s x y) c = Inr ys"
    unfolding q using array_set_of_nat[OF b] by blast
  then show ?thesis
    using assms(5) by (simp add: handlePaint_def paintUpdate_prim)
qed

lemma onPointerDown_returns:
  assumes "gridSize s = of_nat n" and "n \<le> 256" and "x < n" and "y < n"
    and "\<not> is_object (currentColor s)"
  shows "\<exists>s'. onPointerDown x y s = Inr s'"
proof -
  let ?s1 = "pushHistory (pixels s) (s\<lparr>drawingRef := True\<rparr>)"
  have g: "gridSize ?s1 = of_nat n" using assms(1) by (simp add: pushHistory_def)
  have "\<exists>s'. handlePaint x y (currentColor s) ?s1 = Inr s'"
    using g assms(2,3,4,5) by (rule handlePaint_returns)
  moreover have "\<exists>s'. handlePaint x y JNull ?s1 = Inr s'"
    using g assms(2,3,4) by (rule handlePaint_returns) simp
  ultimately show ?thesis by (simp add: onPointerDown_def Let_def)
qed

subsection \<open>Undo and redo\<close>

text \<open>
  C1. After one committed action (the pointer going down, a whole gesture, Clear or Fill)
  the undo stack is not empty, \<open>undo\<close> gives back the pixel buffer of before the action,
  and \<open>redo\<close> right after that \<open>undo\<close> gives back the state of after the action, its pixel
  buffer included. \<open>undo\<close> with an empty undo stack and \<open>redo\<close> with an empty redo stack
  change nothing. On a grid of side \<open>n\<close> (at most 256) Clear and Fill return a state, and
  so does the pointer going down on a cell of the grid when the current colour is not an
  array or object.
\<close>

theorem undo_redo_round_trip:
  "(onPointerDown x y s = Inr s' \<or> gesture x y cells s = Inr s'
      \<or> clearAll s = Inr s' \<or> fillBackground s = Inr s'
      \<longrightarrow> undoStack s' \<noteq> [] \<and> pixels (undo s') = pixels s \<and> redo (undo s') = s') \<and>
   (undoStack t = [] \<longrightarrow> undo t = t) \<and>
   (redoStack t = [] \<longrightarrow> redo t = t) \<and>
   (gridSize s = of_nat n \<and> n \<le> 256
      \<longrightarrow> (\<exists>a. clearAll s = Inr a) \<and> (\<exists>a. fillBackground s = Inr a) \<and>
          (x < n \<and> y < n \<and> \<not> is_object (currentColor s) \<longrightarrow> (\<exists>a. onPointerDown x y s = Inr a)))"
proof -
  have "undoStack s' \<noteq> [] \<and> pixels (undo s') = pixels s \<and> redo (undo s') = s'"
    if "onPointerDown x y s = Inr s' \<or> gesture x y cells s = Inr s'
      \<or> clearAll s = Inr s' \<or> fillBackground s = Inr s'"
  proof -
    from that have h: "undoStack s' = undoStack s @ [pixels s] \<and> redoStack s' = []"
      using onPointerDown_history gesture_history clearAll_history fillBackground_history
      by blast
    then show ?thesis
      using redo_undo[of s' "undoStack s" "pixels s"] by simp
  qed
  moreover have "undo t = t" if "undoStack t = []"
    using that by (simp add: undo_def)
  moreover have "redo t = t" if "redoStack t = []"
    using that by (simp add: redo_def)
  moreover have "(\<exists>a. clearAll s = Inr a) \<and> (\<exists>a. fillBackground s = Inr a) \<and>
          (x < n \<and> y < n \<and> \<not> is_object (currentColor s) \<longrightarrow> (\<exists>a. onPointerDown x y s = Inr a))"
    if "gridSize s = of_nat n \<and> n \<le> 256"
    using that clearAll_returns[of s n] fillBackground_returns[of s n]
      onPointerDown_returns[of s n x y] by blast
  ultimately show ?thesis by blast
qed

theorem undo_redo_round_trip_witness:
  "gesture 1 1 [(0, 1)] small = Inr painted \<and> undoStack painted \<noteq> [] \<and>
   pixels (undo painted) = pixels small \<and> redo (undo painted) = painted \<and>
   undoStack small = [] \<and> undo small = small \<and>
   redoStack small = [] \<and> redo small = small \<and>
   gridSize small = of_nat 2 \<and> (2::nat) \<le> 256 \<and>
   clearAll small = Inr (small\<lparr>undoStack := [pixels small]\<rparr>)"
proof -
  have g: "gesture 1 1 [(0, 1)] small = Inr painted" by code_simp
  have e: "undoStack small = []" "redoStack small = []" by (simp_all add: small_def initial_def)
  have z: "gridSize small = of_nat 2" by (simp add: small_def)
  have c: "clearAll small = Inr (small\<lparr>undoStack := [pixels small]\<rparr>)" by code_simp
  from undo_redo_round_trip[where x = 1 and y = 1 and s = small and s' = painted
      and cells = "[(0, 1)]" and t = small and n = 2] g e z c
  show ?thesis by simp
qed

subsection \<open>The redo stack after a new edit\<close>

text \<open>
  C2. \<open>pushHistory\<close> empties the redo stack, so the redo stack is empty after each handler
  that records (pointer down, Clear, Fill). In a run of events, the redo stack after the
  events that follow a recording event has at most one entry for each Undo among them:
  no entry is older than that recording event.
\<close>

theorem redo_cleared_on_record:
  "redoStack (pushHistory p s) = [] \<and>
   (onPointerDown x y s = Inr s' \<or> clearAll s = Inr s' \<or> fillBackground s = Inr s'
      \<longrightarrow> redoStack s' = []) \<and>
   (records e \<and> run (es1 @ e # es2) t = Inr t'
      \<longrightarrow> length (redoStack t') \<le> length (filter (\<lambda>ev. ev = Undo) es2))"
proof (intro conjI impI)
  show "redoStack (pushHistory p s) = []" by (simp add: pushHistory_def)
next
  assume "onPointerDown x y s = Inr s' \<or> clearAll s = Inr s' \<or> fillBackground s = Inr s'"
  then show "redoStack s' = []"
    using onPointerDown_history clearAll_history fillBackground_history by blast
next
  assume a: "records e \<and> run (es1 @ e # es2) t = Inr t'"
  then obtain t1 t2 where "run es1 t = Inr t1" and e: "step e t1 = Inr t2"
    and r: "run es2 t2 = Inr t'"
    by (auto simp: run_append split: sum.splits)
  from a e have "redoStack t2 = []" using step_records_redo by blast
  with run_redo_length[OF r] show "length (redoStack t') \<le> length (filter (\<lambda>ev. ev = Undo) es2)"
    by simp
qed

theorem redo_cleared_on_record_witness:
  "redoStack (pushHistory [] (undo painted)) = [] \<and>
   fillBackground (undo painted) = Inr (painted\<lparr>pixels := replicate 4 (JStr ''#1f2937'')\<rparr>) \<and>
   redoStack (undo painted) \<noteq> [] \<and>
   redoStack (painted\<lparr>pixels := replicate 4 (JStr ''#1f2937'')\<rparr>) = [] \<and>
   records ClearAll \<and>
   run ([PointerDown 0 0, Undo] @ ClearAll # [Undo, Redo, Undo]) small
     = Inr (small\<lparr>redoStack := [[JNull, JNull, JNull, JNull]], drawingRef := True\<rparr>) \<and>
   length (redoStack (small\<lparr>redoStack := [[JNull, JNull, JNull, JNull]], drawingRef := True\<rparr>))
     \<le> length (filter (\<lambda>ev. ev = Undo) [Undo, Redo, Undo])"
proof -
  have f: "fillBackground (undo painted) = Inr (painted\<lparr>pixels := replicate 4 (JStr ''#1f2937'')\<rparr>)"
    by code_simp
  have n: "redoStack (undo painted) \<noteq> []" by code_simp
  have r: "run ([PointerDown 0 0, Undo] @ ClearAll # [Undo, Redo, Undo]) small
     = Inr (small\<lparr>redoStack := [[JNull, JNull, JNull, JNull]], drawingRef := True\<rparr>)"
    by code_simp
  from redo_cleared_on_record[where p = "[]" and s = "undo painted"
      and s' = "painted\<lparr>pixels := replicate 4 (JStr ''#1f2937'')\<rparr>" and e = ClearAll
      and ?es1.0 = "[PointerDown 0 0, Undo]" and ?es2.0 = "[Undo, Redo, Undo]" and t = small
      and t' = "small\<lparr>redoStack := [[JNull, JNull, JNull, JNull]], drawingRef := True\<rparr>"] f n r
  show ?thesis by simp
qed

subsection \<open>A gesture that changes nothing\<close>

text \<open>
  C10. The pointer going down, and the gesture it starts, push the pixel buffer of before
  onto the undo stack, once, and empty the redo stack. That also holds when the pixel buffer
  stays as it is: with the eyedropper, which only sets the colour and the tool, with the
  pen on a cell that has the colour of the pen, and with the eraser on a cell that is
  \<^verbatim>\<open>null\<close>. \<open>undo\<close> then takes that entry off and leaves a pixel buffer equal to the
  current one.
\<close>

theorem pointer_down_always_records:
  "(onPointerDown x y s = Inr s' \<or> gesture x y cells s = Inr s'
      \<longrightarrow> undoStack s' = undoStack s @ [pixels s] \<and> redoStack s' = []) \<and>
   (tool s = ''eyedropper''
      \<longrightarrow> onPointerDown x y s =
            Inr (s\<lparr>drawingRef := True, undoStack := undoStack s @ [pixels s], redoStack := [],
                   currentColor := nullish (array_get (pixels s) (idx s x y)) (JStr ''#ffffff''),
                   tool := ''pen''\<rparr>)) \<and>
   (tool s = ''pen'' \<and> array_get (pixels s) (idx s x y) = currentColor s
      \<and> \<not> is_object (currentColor s)
      \<longrightarrow> onPointerDown x y s =
            Inr (s\<lparr>drawingRef := True, undoStack := undoStack s @ [pixels s],
                   redoStack := []\<rparr>)) \<and>
   (tool s = ''eraser'' \<and> array_get (pixels s) (idx s x y) = JNull
      \<longrightarrow> onPointerDown x y s =
            Inr (s\<lparr>drawingRef := True, undoStack := undoStack s @ [pixels s],
                   redoStack := []\<rparr>)) \<and>
   (onPointerDown x y s = Inr s' \<and> pixels s' = pixels s
      \<longrightarrow> pixels (undo s') = pixels s' \<and> undoStack (undo s') = undoStack s)"
proof (intro conjI impI)
  assume "onPointerDown x y s = Inr s' \<or> gesture x y cells s = Inr s'"
  then have "undoStack s' = undoStack s @ [pixels s] \<and> redoStack s' = []"
    using onPointerDown_history gesture_history by blast
  then show "undoStack s' = undoStack s @ [pixels s]" and "redoStack s' = []" by simp_all
next
  assume "tool s = ''eyedropper''"
  then show "onPointerDown x y s =
            Inr (s\<lparr>drawingRef := True, undoStack := undoStack s @ [pixels s], redoStack := [],
                   currentColor := nullish (array_get (pixels s) (idx s x y)) (JStr ''#ffffff''),
                   tool := ''pen''\<rparr>)"
    by (rule onPointerDown_eyedropper)
next
  assume "tool s = ''pen'' \<and> array_get (pixels s) (idx s x y) = currentColor s
      \<and> \<not> is_object (currentColor s)"
  then show "onPointerDown x y s =
            Inr (s\<lparr>drawingRef := True, undoStack := undoStack s @ [pixels s],
                   redoStack := []\<rparr>)"
    by (simp add: onPointerDown_pen_same)
next
  assume "tool s = ''eraser'' \<and> array_get (pixels s) (idx s x y) = JNull"
  then show "onPointerDown x y s =
            Inr (s\<lparr>drawingRef := True, undoStack := undoStack s @ [pixels s],
                   redoStack := []\<rparr>)"
    by (simp add: onPointerDown_eraser_same)
next
  assume a: "onPointerDown x y s = Inr s' \<and> pixels s' = pixels s"
  then have "undoStack s' = undoStack s @ [pixels s]"
    using onPointerDown_history by blast
  with a show "pixels (undo s') = pixels s'" and "undoStack (undo s') = undoStack s"
    by (simp_all add: undo_top)
qed

theorem pointer_down_always_records_witness:
  "tool picking = ''eyedropper'' \<and> onPointerDown 1 1 picking = Inr picked \<and>
   tool painted = ''pen'' \<and> array_get (pixels painted) (idx painted 1 1) = currentColor painted \<and>
   \<not> is_object (currentColor painted) \<and> onPointerDown 1 1 painted = Inr repainted \<and>
   pixels repainted = pixels painted \<and> pixels (undo repainted) = pixels repainted \<and>
   undoStack (undo repainted) = undoStack painted \<and>
   undoStack repainted = undoStack painted @ [pixels painted] \<and> redoStack repainted = []"
proof -
  note th = pointer_down_always_records[of 1 1 painted repainted "[]"]
  have t1: "tool picking = ''eyedropper''" by code_simp
  have t2: "tool painted = ''pen''" by code_simp
  have g: "array_get (pixels painted) (idx painted 1 1) = currentColor painted" by code_simp
  have o: "\<not> is_object (currentColor painted)" by code_simp
  have p: "pixels repainted = pixels painted" by code_simp
  have "onPointerDown 1 1 picking =
     Inr (picking\<lparr>drawingRef := True, undoStack := undoStack picking @ [pixels picking],
                  redoStack := [],
                  currentColor := nullish (array_get (pixels picking) (idx picking 1 1)) (JStr ''#ffffff''),
                  tool := ''pen''\<rparr>)"
    using pointer_down_always_records[of 1 1 picking picking "[]"] t1 by blast
  moreover have "nullish (array_get (pixels picking) (idx picking 1 1)) (JStr ''#ffffff'') = JStr ''#1f2937''"
    by code_simp
  ultimately have 1: "onPointerDown 1 1 picking = Inr picked"
    by (simp only: picked_def)
  have 2: "onPointerDown 1 1 painted = Inr repainted"
    unfolding repainted_def
    using pointer_down_always_records[of 1 1 painted painted "[]"] t2 g o by blast
  from th 2 p have 3: "pixels (undo repainted) = pixels repainted \<and>
      undoStack (undo repainted) = undoStack painted" by blast
  from th 2 have 4: "undoStack repainted = undoStack painted @ [pixels painted] \<and> redoStack repainted = []"
    by blast
  from t1 1 t2 g o 2 p 3 4 show ?thesis by blast
qed

section \<open>Painting\<close>

text \<open>
  C3. On a grid of side \<open>n\<close> (at most 256), for a cell \<open>(x, y)\<close> of the grid and a value
  \<open>c\<close> that is \<^verbatim>\<open>null\<close> or a colour string, \<open>handlePaint\<close> returns a state. When the cell
  has the value \<open>c\<close> that state is the one it was given. In every case the cell has the
  value \<open>c\<close> afterwards and every other key of the buffer reads as before; when the index of
  the cell is inside the buffer, the new buffer is the old one with that one element
  replaced. A second \<open>handlePaint\<close> with the same arguments changes nothing, and
  \<open>handlePaint\<close> leaves both stacks of the history as they are.
\<close>

theorem paint_is_idempotent:
  assumes "gridSize s = of_nat n" and "n \<le> 256" and "x < n" and "y < n"
    and "c = JNull \<or> (\<exists>colour. c = JStr colour)"
  shows "\<exists>s'. handlePaint x y c s = Inr s' \<and>
           (array_get (pixels s) (idx s x y) = c \<longrightarrow> s' = s) \<and>
           (y * n + x < length (pixels s) \<longrightarrow> s' = s\<lparr>pixels := (pixels s)[y * n + x := c]\<rparr>) \<and>
           array_get (pixels s') (idx s x y) = c \<and>
           (\<forall>q. q \<noteq> idx s x y \<longrightarrow> array_get (pixels s') q = array_get (pixels s) q) \<and>
           handlePaint x y c s' = Inr s' \<and>
           undoStack s' = undoStack s \<and> redoStack s' = redoStack s"
proof -
  let ?i = "y * n + x"
  from assms have prim: "\<not> is_object c" by auto
  from assms have b: "?i < 4294967295" using cell_index_bound[of x n y] by simp
  have q: "idx s x y = of_nat ?i" using assms(1) by (rule idx_of_nat)
  show ?thesis
  proof (cases "array_get (pixels s) (idx s x y) = c")
    case True
    then have h: "handlePaint x y c s = Inr s"
      using prim by (simp add: handlePaint_def paintUpdate_prim)
    have "(pixels s)[?i := c] = pixels s" if "?i < length (pixels s)"
    proof -
      have "array_get (pixels s) (of_nat ?i) = pixels s ! ?i"
        using that array_get_of_nat[OF b, of "pixels s"] by (simp only: if_True)
      with True q have "pixels s ! ?i = c" by (simp only:)
      then show ?thesis by (rule list_update_same_conv[THEN iffD2, OF that])
    qed
    with h True show ?thesis by auto
  next
    case False
    obtain ys where ys: "array_set (pixels s) (idx s x y) c = Inr ys"
      unfolding q using array_set_of_nat[OF b] by blast
    let ?s' = "s\<lparr>pixels := ys\<rparr>"
    have h: "handlePaint x y c s = Inr ?s'"
      using prim False ys by (simp add: handlePaint_def paintUpdate_prim)
    have g: "array_get ys (idx s x y) = c" using ys by (rule array_get_set_same)
    have i': "idx ?s' x y = idx s x y" by (simp add: idx_def)
    have h': "handlePaint x y c ?s' = Inr ?s'"
      using prim g i' by (simp add: handlePaint_def paintUpdate_prim)
    have o: "\<forall>q. q \<noteq> idx s x y \<longrightarrow> array_get ys q = array_get (pixels s) q"
      using array_get_set_other[OF ys] by blast
    have u: "ys = (pixels s)[?i := c]" if "?i < length (pixels s)"
      using that ys array_set_of_nat[OF b, of "pixels s" c] unfolding q by (simp only: if_True sum.inject)
    from h False g o h' u show ?thesis by auto
  qed
qed

theorem paint_is_idempotent_witness:
  "gridSize small = of_nat 2 \<and> (2::nat) \<le> 256 \<and> (1::nat) < 2 \<and> \<not> is_object (JStr ''#1f2937'') \<and>
   handlePaint 1 1 (JStr ''#1f2937'') small = Inr dotted \<and>
   array_get (pixels dotted) (idx small 1 1) = JStr ''#1f2937'' \<and>
   handlePaint 1 1 (JStr ''#1f2937'') dotted = Inr dotted \<and>
   undoStack dotted = undoStack small"
proof -
  have g: "gridSize small = of_nat 2" by (simp add: small_def)
  have c: "JStr ''#1f2937'' = JNull \<or> (\<exists>colour. JStr ''#1f2937'' = JStr colour)" by blast
  have l: "1 * 2 + 1 < length (pixels small)" by (simp add: small_def)
  have d: "small\<lparr>pixels := (pixels small)[1 * 2 + 1 := JStr ''#1f2937'']\<rparr> = dotted"
    by code_simp
  from paint_is_idempotent[of small 2 1 1 "JStr ''#1f2937''", OF g _ _ _ c]
  obtain s' where h: "handlePaint 1 1 (JStr ''#1f2937'') small = Inr s'"
    and u: "1 * 2 + 1 < length (pixels small) \<longrightarrow>
              s' = small\<lparr>pixels := (pixels small)[1 * 2 + 1 := JStr ''#1f2937'']\<rparr>"
    and a: "array_get (pixels s') (idx small 1 1) = JStr ''#1f2937''"
    and i: "handlePaint 1 1 (JStr ''#1f2937'') s' = Inr s'"
    and st: "undoStack s' = undoStack small"
    by auto
  from u l d have "s' = dotted" by simp
  with h a i st g show ?thesis by simp
qed

section \<open>The size of the grid\<close>

lemma resetPixels_of_nat:
  assumes "n \<le> 256"
  shows "resetPixels (of_nat n) prev =
           Inr (case prev of
                  JArr xs \<Rightarrow> if length xs = n * n then xs else replicate (n * n) JNull
                | _ \<Rightarrow> replicate (n * n) JNull)"
proof -
  have m: "(of_nat n :: rat) * of_nat n = of_nat (n * n)" by simp
  have f: "Array_fill (of_nat (n * n)) JNull = Inr (replicate (n * n) JNull)"
    using square_bound[OF assms] by (rule Array_fill_of_nat)
  have e: "(of_nat k = (of_nat (n * n) :: rat)) = (k = n * n)" for k
    by (rule of_nat_eq_iff)
  show ?thesis
    unfolding resetPixels_def m by (cases prev) (simp_all only: f e jsval.case if_not_P not_not split: if_splits, simp_all)
qed

lemma clamp_in_range: "2 \<le> q \<Longrightarrow> q \<le> 256 \<Longrightarrow> clamp q 2 256 = q"
  by (simp add: clamp_def)

lemma clamp_bounds: "2 \<le> clamp q 2 256 \<and> clamp q 2 256 \<le> 256"
  by (simp add: clamp_def)

text \<open>
  C4. For \<open>n\<close> from 2 to 256, the update function of the effect returns an array of length
  \<open>n * n\<close> for every stored value: the stored array when its length is \<open>n * n\<close>, and
  \<open>n * n\<close> times \<^verbatim>\<open>null\<close> when the length differs or the value is not an array. So after a
  render in which the size has become \<open>n\<close> the pixel buffer has length \<open>n * n\<close>, and so it
  has after the size input has changed the size to \<open>n\<close>.
\<close>

theorem resize_buffer_length:
  assumes "2 \<le> n" and "n \<le> 256"
  shows "resetPixels (of_nat n) prev =
           Inr (case prev of
                  JArr xs \<Rightarrow> if length xs = n * n then xs else replicate (n * n) JNull
                | _ \<Rightarrow> replicate (n * n) JNull) \<and>
         (\<exists>p. resetPixels (of_nat n) prev = Inr p \<and> length p = n * n) \<and>
         (gridSize s = of_nat n \<and> prevSize \<noteq> gridSize s \<longrightarrow>
            sizeEffect prevSize s =
              Inr (s\<lparr>pixels := if length (pixels s) = n * n then pixels s
                                else replicate (n * n) JNull\<rparr>)) \<and>
         (gridSize t \<noteq> of_nat n \<longrightarrow>
            (\<exists>t'. resize (int n) t = Inr t' \<and> gridSize t' = of_nat n \<and>
                  length (pixels t') = n * n \<and>
                  pixels t' = (if length (pixels t) = n * n then pixels t
                               else replicate (n * n) JNull)))"
proof -
  note r = resetPixels_of_nat[OF assms(2)]
  have 1: "resetPixels (of_nat n) prev =
           Inr (case prev of
                  JArr xs \<Rightarrow> if length xs = n * n then xs else replicate (n * n) JNull
                | _ \<Rightarrow> replicate (n * n) JNull)"
    by (rule r)
  have 2: "\<exists>p. resetPixels (of_nat n) prev = Inr p \<and> length p = n * n"
    unfolding r by (cases prev) simp_all
  have 3: "sizeEffect prevSize s =
              Inr (s\<lparr>pixels := if length (pixels s) = n * n then pixels s
                                else replicate (n * n) JNull\<rparr>)"
    if "gridSize s = of_nat n \<and> prevSize \<noteq> gridSize s"
    using that by (simp add: sizeEffect_def r)
  have 4: "\<exists>t'. resize (int n) t = Inr t' \<and> gridSize t' = of_nat n \<and>
                  length (pixels t') = n * n \<and>
                  pixels t' = (if length (pixels t) = n * n then pixels t
                               else replicate (n * n) JNull)"
    if ne: "gridSize t \<noteq> of_nat n"
  proof -
    have "(of_nat 2 :: rat) \<le> of_nat n" and "(of_nat n :: rat) \<le> of_nat 256"
      using assms by (simp_all only: of_nat_le_iff)
    then have lo: "(2 :: rat) \<le> of_nat n" and hi: "(of_nat n :: rat) \<le> 256"
      by (simp_all only: of_nat_numeral)
    have c: "clamp (of_nat n) 2 256 = (of_nat n :: rat)"
      using lo hi by (rule clamp_in_range)
    let ?t1 = "onChangeSize (int n) t"
    have g: "gridSize ?t1 = of_nat n" by (simp add: onChangeSize_def c)
    have p: "pixels ?t1 = pixels t" by (simp add: onChangeSize_def)
    from g ne have "resize (int n) t =
        Inr (?t1\<lparr>pixels := if length (pixels t) = n * n then pixels t
                                else replicate (n * n) JNull\<rparr>)"
      by (simp add: resize_def sizeEffect_def r p)
    with g show ?thesis by simp
  qed
  from 1 2 3 4 show ?thesis by blast
qed

theorem resize_buffer_length_witness:
  "(2::nat) \<le> 2 \<and> (2::nat) \<le> 256 \<and>
   resetPixels (of_nat 2) (JStr ''stored'') = Inr [JNull, JNull, JNull, JNull] \<and>
   gridSize initial \<noteq> of_nat 2 \<and> resize (int 2) initial = Inr small \<and>
   length (pixels small) = 2 * 2"
proof -
  have n: "gridSize initial \<noteq> of_nat 2" by (simp add: initial_def)
  note th = resize_buffer_length[of 2 "JStr ''stored''" initial 0 initial]
  from th have 1: "resetPixels (of_nat 2) (JStr ''stored'') = Inr [JNull, JNull, JNull, JNull]"
    by (simp add: eval_nat_numeral)
  have e: "resize (int 2) initial = Inr small"
    by (simp add: resize_def sizeEffect_def onChangeSize_def clamp_def initial_def small_def
      resetPixels_def Array_fill_def eval_nat_numeral)
  from 1 n e show ?thesis by (simp add: small_def)
qed

section \<open>Import and export of the document\<close>

lemma get_prop_number_object: "is_number (get_prop data k) \<Longrightarrow> \<not> falsy data"
  by (cases data) simp_all

text \<open>
  C5. When the text of the file does not parse, or the parsed value has no number as
  \<^verbatim>\<open>size\<close> or no array as \<^verbatim>\<open>pixels\<close>, \<open>importJSON\<close> calls \<^verbatim>\<open>alert\<close> and returns
  the state it was given; the render that follows changes nothing either.
\<close>

theorem import_invalid_is_atomic:
  assumes "file = Some SyntaxError \<or>
           (file = Some (Parsed data) \<and>
              (\<not> is_number (get_prop data ''size'') \<or> \<not> isArray (get_prop data ''pixels'')))"
  shows "importJSON file s = (s, True) \<and> step (Import file) s = Inr s"
proof -
  from assms have "importJSON file s = (s, True)"
    by (auto simp: importJSON_def)
  then show ?thesis by (simp add: sizeEffect_def)
qed

theorem import_invalid_is_atomic_witness:
  "\<not> is_number (get_prop badSize ''size'') \<and>
   importJSON (Some (Parsed badSize)) small = (small, True) \<and>
   step (Import (Some (Parsed badSize))) small = Inr small \<and>
   importJSON (Some SyntaxError) small = (small, True)"
proof -
  have n: "\<not> is_number (get_prop badSize ''size'')" by code_simp
  from import_invalid_is_atomic[of "Some (Parsed badSize)" badSize small] n
  have 1: "importJSON (Some (Parsed badSize)) small = (small, True) \<and>
           step (Import (Some (Parsed badSize))) small = Inr small"
    by blast
  from import_invalid_is_atomic[of "Some SyntaxError" badSize small]
  have 2: "importJSON (Some SyntaxError) small = (small, True)" by blast
  from n 1 2 show ?thesis by blast
qed

subsection \<open>A document that passes the validation\<close>

lemma clampedSize_number: "clampedSize v = Some c \<Longrightarrow> is_number v"
  by (cases v) simp_all

lemma clampedSize_defined: "is_number v \<Longrightarrow> \<exists>c. clampedSize v = Some c"
  by (cases v) simp_all


lemma importJSON_valid:
  assumes "clampedSize (get_prop data ''size'') = Some c" and "get_prop data ''pixels'' = JArr px"
  shows "importJSON (Some (Parsed data)) s =
           (s\<lparr>gridSize := c, pixels := px,
              palette := (case get_prop data ''palette'' of JArr pal \<Rightarrow> pal | _ \<Rightarrow> palette s)\<rparr>,
            False)"
proof -
  from assms(1) have n: "is_number (get_prop data ''size'')" by (rule clampedSize_number)
  then have "\<not> falsy data" by (rule get_prop_number_object)
  with assms n show ?thesis
    by (cases "get_prop data ''palette''") (simp_all add: importJSON_def)
qed

text \<open>What the effect of the render after an import does to the imported buffer.\<close>

lemma sizeEffect_kept:
  assumes "gridSize s = prevSize \<or> of_nat (length (pixels s)) = gridSize s * gridSize s"
  shows "sizeEffect prevSize s = Inr s"
  using assms by (auto simp: sizeEffect_def resetPixels_def)

lemma sizeEffect_reset:
  assumes "gridSize s \<noteq> prevSize" and "gridSize s = of_nat m" and "m \<le> 256"
    and "length (pixels s) \<noteq> m * m"
  shows "sizeEffect prevSize s = Inr (s\<lparr>pixels := replicate (m * m) JNull\<rparr>)"
  using assms by (simp add: sizeEffect_def resetPixels_of_nat)







subsection \<open>Export followed by import\<close>

lemma json_of_id: "writable v \<Longrightarrow> json_of v = v"
proof (induction v)
  case (JArr xs)
  then have "map json_of xs = xs"
    by (intro map_idI) (simp add: list_all_iff)
  then show ?case by simp
next
  case (JObj ps)
  have w: "writable (snd p)" if "p \<in> set ps" for p
    using that JObj.prems by (simp add: list_all_iff)
  have "snd p \<noteq> JUndefined" if "p \<in> set ps" for p
    using w[OF that] by auto
  then have f: "filter (\<lambda>p. snd p \<noteq> JUndefined) ps = ps"
    by (simp add: filter_id_conv)
  have "(fst p, json_of (snd p)) = p" if "p \<in> set ps" for p
  proof -
    have "snd p \<in> Basic_BNFs.snds p" by (cases p) simp
    with w[OF that] have "json_of (snd p) = snd p" using JObj.IH that by blast
    then show ?thesis by simp
  qed
  then have "map (\<lambda>p. (fst p, json_of (snd p))) ps = ps"
    by (intro map_idI)
  with f show ?case by simp
qed simp_all

lemma map_json_of_id: "list_all writable xs \<Longrightarrow> map json_of xs = xs"
  by (intro map_idI json_of_id) (simp add: list_all_iff)

lemma size_within_doubles:
  assumes "2 \<le> q" and "q \<le> 256"
  shows "\<bar>q\<bar> < double_overflow"
proof -
  have "(256 :: rat) < double_overflow" by (simp add: double_overflow_def)
  with assms show ?thesis by simp
qed

lemma import_exported:
  assumes "2 \<le> gridSize s" and "gridSize s \<le> 256"
  shows "importJSON (Some (exportedFile now s)) t =
           (t\<lparr>gridSize := gridSize s, pixels := map json_of (pixels s),
              palette := map json_of (palette s)\<rparr>, False)"
proof -
  let ?d = "json_of (exportJSON now s)"
  note r = size_within_doubles[OF assms]
  have a: "clampedSize (get_prop ?d ''size'') = Some (gridSize s)"
    using r clamp_in_range[OF assms] by (simp add: exportJSON_def)
  have b: "get_prop ?d ''pixels'' = JArr (map json_of (pixels s))"
    by (simp add: exportJSON_def)
  have c: "get_prop ?d ''palette'' = JArr (map json_of (palette s))"
    by (simp add: exportJSON_def)
  from importJSON_valid[OF a b, of t] c
  show ?thesis by (simp only: exportedFile_def jsval.case)
qed

lemma small_reached: "step (ChangeSize 2) initial = Inr small"
  by (simp add: resize_def sizeEffect_def onChangeSize_def clamp_def initial_def small_def
      resetPixels_def Array_fill_def eval_nat_numeral)

lemma run_from_small: "run (ChangeSize 2 # es) initial = run es small"
  by (simp only: run.simps small_reached sum.case)

text \<open>
  C7, as stated: for every state with a size from 2 to 256, importing the exported file
  gives the live pixel buffer, size and palette that were exported. This fails in three
  ways, each at a state that is reached from \<open>initial\<close>. The buffer of \<open>holed\<close> has
  holes, which the file has as \<^verbatim>\<open>null\<close>. The buffer of \<open>bright\<close> has \<^verbatim>\<open>Infinity\<close>, which
  the file has as \<^verbatim>\<open>null\<close>. The buffer of \<open>stale\<close> has 4 elements at size 3; imported
  into \<open>initial\<close>, the size changes and the effect of the render replaces the buffer by
  9 times \<^verbatim>\<open>null\<close>.
\<close>

theorem export_import_round_trip_counterexample:
  "run [ChangeSize 2, Import (Some (Parsed shortDoc)), PointerDown 1 1] initial = Inr holed \<and>
   2 \<le> gridSize holed \<and> gridSize holed \<le> 256 \<and>
   of_nat (length (pixels holed)) = gridSize holed * gridSize holed \<and>
   step (Import (Some (exportedFile 0 holed))) holed =
     Inr (holed\<lparr>pixels := [JNull, JNull, JNull, JStr ''#1f2937'']\<rparr>) \<and>
   pixels holed \<noteq> [JNull, JNull, JNull, JStr ''#1f2937''] \<and>
   run [ChangeSize 2, Import (Some (Parsed infDoc))] initial = Inr bright \<and>
   2 \<le> gridSize bright \<and> gridSize bright \<le> 256 \<and>
   of_nat (length (pixels bright)) = gridSize bright * gridSize bright \<and>
   step (Import (Some (exportedFile 0 bright))) bright =
     Inr (bright\<lparr>pixels := [JNull, JNull, JNull, JNull]\<rparr>) \<and>
   pixels bright \<noteq> [JNull, JNull, JNull, JNull] \<and>
   run [ChangeSize 2, PointerDown 1 1, PointerEnter 0 1, PointerUp,
        ClearAll, ChangeSize 3, Undo] initial = Inr stale \<and>
   2 \<le> gridSize stale \<and> gridSize stale \<le> 256 \<and>
   list_all writable (pixels stale) \<and> list_all writable (palette stale) \<and>
   step (Import (Some (exportedFile 0 stale))) initial =
     Inr (initial\<lparr>gridSize := 3, pixels := replicate 9 JNull\<rparr>) \<and>
   pixels stale \<noteq> replicate 9 JNull"
proof -
  have a1: "run [ChangeSize 2, Import (Some (Parsed shortDoc)), PointerDown 1 1] initial = Inr holed"
    unfolding run_from_small by code_simp
  have a2: "2 \<le> gridSize holed" "gridSize holed \<le> 256"
    "of_nat (length (pixels holed)) = gridSize holed * gridSize holed"
    "pixels holed \<noteq> [JNull, JNull, JNull, JStr ''#1f2937'']"
    by (simp_all add: holed_def small_def)
  have a3: "step (Import (Some (exportedFile 0 holed))) holed =
     Inr (holed\<lparr>pixels := [JNull, JNull, JNull, JStr ''#1f2937'']\<rparr>)"
  proof -
    have p: "list_all writable (palette holed)"
      by (simp add: holed_def small_def initial_def)
    have "importJSON (Some (exportedFile 0 holed)) holed =
        (holed\<lparr>gridSize := gridSize holed, pixels := map json_of (pixels holed),
               palette := palette holed\<rparr>, False)"
      using import_exported[OF a2(1,2), of 0 holed] map_json_of_id[OF p] by (simp only:)
    then have "step (Import (Some (exportedFile 0 holed))) holed =
        Inr (holed\<lparr>gridSize := gridSize holed, pixels := map json_of (pixels holed),
               palette := palette holed\<rparr>)"
      by (simp add: sizeEffect_kept)
    then show ?thesis by (simp add: holed_def)
  qed
  have b1: "run [ChangeSize 2, Import (Some (Parsed infDoc))] initial = Inr bright"
    unfolding run_from_small by code_simp
  have b2: "2 \<le> gridSize bright" "gridSize bright \<le> 256"
    "of_nat (length (pixels bright)) = gridSize bright * gridSize bright"
    "pixels bright \<noteq> [JNull, JNull, JNull, JNull]"
    by (simp_all add: bright_def small_def)
  have b3: "step (Import (Some (exportedFile 0 bright))) bright =
     Inr (bright\<lparr>pixels := [JNull, JNull, JNull, JNull]\<rparr>)"
  proof -
    have p: "list_all writable (palette bright)"
      by (simp add: bright_def small_def initial_def)
    have "importJSON (Some (exportedFile 0 bright)) bright =
        (bright\<lparr>gridSize := gridSize bright, pixels := map json_of (pixels bright),
               palette := palette bright\<rparr>, False)"
      using import_exported[OF b2(1,2), of 0 bright] map_json_of_id[OF p] by (simp only:)
    then have "step (Import (Some (exportedFile 0 bright))) bright =
        Inr (bright\<lparr>gridSize := gridSize bright, pixels := map json_of (pixels bright),
               palette := palette bright\<rparr>)"
      by (simp add: sizeEffect_kept)
    then show ?thesis by (simp add: bright_def)
  qed
  have c1: "run [ChangeSize 2, PointerDown 1 1, PointerEnter 0 1, PointerUp,
        ClearAll, ChangeSize 3, Undo] initial = Inr stale"
    unfolding run_from_small by code_simp
  have c2: "2 \<le> gridSize stale" "gridSize stale \<le> 256"
    "list_all writable (pixels stale)" "list_all writable (palette stale)"
    by (simp_all add: stale_def painted_def small_def initial_def)
  have "length (pixels stale) \<noteq> length (replicate 9 JNull :: jsval list)"
    by (simp add: stale_def painted_def)
  then have c4: "pixels stale \<noteq> replicate 9 JNull" by auto
  have c3: "step (Import (Some (exportedFile 0 stale))) initial =
     Inr (initial\<lparr>gridSize := 3, pixels := replicate 9 JNull\<rparr>)"
  proof -
    have "importJSON (Some (exportedFile 0 stale)) initial =
        (initial\<lparr>gridSize := gridSize stale, pixels := pixels stale, palette := palette stale\<rparr>,
         False)"
      using import_exported[OF c2(1,2), of 0 initial] map_json_of_id[OF c2(3)]
        map_json_of_id[OF c2(4)]
      by (simp only:)
    moreover have "sizeEffect (gridSize initial)
        (initial\<lparr>gridSize := gridSize stale, pixels := pixels stale, palette := palette stale\<rparr>)
        = Inr (initial\<lparr>gridSize := gridSize stale, pixels := pixels stale,
                       palette := palette stale\<rparr>\<lparr>pixels := replicate (3 * 3) JNull\<rparr>)"
      by (rule sizeEffect_reset) (simp_all add: stale_def painted_def small_def initial_def)
    ultimately show ?thesis
      by (simp add: stale_def painted_def small_def)
  qed
  from a1 a2 a3 b1 b2 b3 c1 c2 c3 c4 show ?thesis by blast
qed

text \<open>
  C7, amended: for every state \<open>s\<close> with a size from 2 to 256 whose pixel buffer and
  palette hold only values that are written and read back unchanged (no \<^verbatim>\<open>undefined\<close>,
  no hole, no infinity), and every state \<open>t\<close> in which the file exported from \<open>s\<close> is
  imported: when the size of \<open>t\<close> is the size of \<open>s\<close>, or the length of the buffer of \<open>s\<close>
  is the square of its size, then after the import and its render the size, the pixel
  buffer and the palette are those of \<open>s\<close>, and no \<^verbatim>\<open>alert\<close> is called.
\<close>

theorem export_import_round_trip:
  assumes "2 \<le> gridSize s" and "gridSize s \<le> 256"
    and "list_all writable (pixels s)" and "list_all writable (palette s)"
    and "gridSize t = gridSize s \<or> of_nat (length (pixels s)) = gridSize s * gridSize s"
  shows "step (Import (Some (exportedFile now s))) t =
           Inr (t\<lparr>gridSize := gridSize s, pixels := pixels s, palette := palette s\<rparr>) \<and>
         importJSON (Some (exportedFile now s)) t =
           (t\<lparr>gridSize := gridSize s, pixels := pixels s, palette := palette s\<rparr>, False)"
proof -
  let ?t' = "t\<lparr>gridSize := gridSize s, pixels := pixels s, palette := palette s\<rparr>"
  have i: "importJSON (Some (exportedFile now s)) t = (?t', False)"
    using import_exported[OF assms(1,2), of now t] map_json_of_id[OF assms(3)]
      map_json_of_id[OF assms(4)]
    by (simp only:)
  have "sizeEffect (gridSize t) ?t' = Inr ?t'"
    using assms(5) by (intro sizeEffect_kept) auto
  then have "step (Import (Some (exportedFile now s))) t = Inr ?t'"
    by (simp add: i)
  with i show ?thesis by blast
qed

theorem export_import_round_trip_witness:
  "(2::rat) \<le> gridSize painted \<and> gridSize painted \<le> 256 \<and>
   list_all writable (pixels painted) \<and> list_all writable (palette painted) \<and>
   of_nat (length (pixels painted)) = gridSize painted * gridSize painted \<and>
   step (Import (Some (exportedFile 1700000000000 painted))) initial =
     Inr (initial\<lparr>gridSize := gridSize painted, pixels := pixels painted,
                 palette := palette painted\<rparr>) \<and>
   importJSON (Some (exportedFile 1700000000000 painted)) initial =
     (initial\<lparr>gridSize := gridSize painted, pixels := pixels painted,
              palette := palette painted\<rparr>, False)"
proof -
  have a: "(2::rat) \<le> gridSize painted" "gridSize painted \<le> 256"
    by (simp_all add: painted_def small_def)
  have b: "list_all writable (pixels painted)" "list_all writable (palette painted)"
    by (simp_all add: painted_def small_def initial_def)
  have l: "of_nat (length (pixels painted)) = gridSize painted * gridSize painted"
    by (simp add: painted_def small_def)
  note th = export_import_round_trip[OF a b disjI2[OF l], where t = initial and now = 1700000000000]
  with a b l show ?thesis by blast
qed

section \<open>The palette\<close>






section \<open>The gridlines of the exported bitmap\<close>

lemma for_le_of_nat:
  "for_le i (of_nat n) body = concat (map body [i..<Suc n])"
proof (induction "Suc n - i" arbitrary: i)
  case 0
  then have "\<not> (of_nat i :: rat) \<le> of_nat n" by simp
  moreover from 0 have "[i..<Suc n] = []" by simp
  ultimately show ?case by (simp add: for_le.simps[of i])
next
  case (Suc k)
  then have le: "i \<le> n" and k: "k = Suc n - Suc i" by simp_all
  from le have u: "[i..<Suc n] = i # [Suc i..<Suc n]" by (simp add: upt_conv_Cons)
  from le have "(of_nat i :: rat) \<le> of_nat n" by simp
  then have "for_le i (of_nat n) body = body i @ for_le (Suc i) (of_nat n) body"
    by (simp add: for_le.simps[of i])
  also have "for_le (Suc i) (of_nat n) body = concat (map body [Suc i..<Suc n])"
    using k by (rule Suc.hyps(1))
  finally show ?case by (simp only: u list.map concat.simps)
qed

lemma strokes_gridLines:
  "length (filter (\<lambda>c. c = Stroke) (concat (map (gridLines s) is))) = 2 * length is"
  by (induction "is") (simp_all add: gridLines_def)

text \<open>
  C9, as stated: with gridlines, the lines drawn over the bitmap are 1 unit wide. The
  calls of \<open>exportPNG\<close> for the state \<open>painted\<close> set the line width to 1/50 and never
  to 1.
\<close>

theorem gridlines_width_counterexample:
  "exportPNG True painted =
     [SetFillStyle (JStr ''#ffffff''), FillRect 0 0 2 2,
      SetFillStyle (JStr ''#1f2937''), FillRect 0 1 1 1,
      SetFillStyle (JStr ''#1f2937''), FillRect 1 1 1 1,
      SetStrokeStyle ''#e5e7eb'', SetLineWidth (1 / 50),
      BeginPath, MoveTo 0 0, LineTo 0 2, Stroke, BeginPath, MoveTo 0 0, LineTo 2 0, Stroke,
      BeginPath, MoveTo 1 0, LineTo 1 2, Stroke, BeginPath, MoveTo 0 1, LineTo 2 1, Stroke,
      BeginPath, MoveTo 2 0, LineTo 2 2, Stroke, BeginPath, MoveTo 0 2, LineTo 2 2, Stroke] \<and>
   SetLineWidth 1 \<notin> set (exportPNG True painted)"
proof -
  have e: "exportPNG True painted =
     [SetFillStyle (JStr ''#ffffff''), FillRect 0 0 2 2,
      SetFillStyle (JStr ''#1f2937''), FillRect 0 1 1 1,
      SetFillStyle (JStr ''#1f2937''), FillRect 1 1 1 1,
      SetStrokeStyle ''#e5e7eb'', SetLineWidth (1 / 50),
      BeginPath, MoveTo 0 0, LineTo 0 2, Stroke, BeginPath, MoveTo 0 0, LineTo 2 0, Stroke,
      BeginPath, MoveTo 1 0, LineTo 1 2, Stroke, BeginPath, MoveTo 0 1, LineTo 2 1, Stroke,
      BeginPath, MoveTo 2 0, LineTo 2 2, Stroke, BeginPath, MoveTo 0 2, LineTo 2 2, Stroke]"
    by code_simp
  show ?thesis unfolding e by simp
qed

text \<open>
  C9, amended: with gridlines, on a grid of side \<open>n\<close>, \<open>exportPNG\<close> makes the calls it
  makes without gridlines, then sets the stroke style to \<^verbatim>\<open>#e5e7eb\<close> and the line width
  to 1/50 (the \<^verbatim>\<open>0.02\<close> of the source), and then, for each \<open>i\<close> from 0 to \<open>n\<close>, strokes
  the vertical line from \<open>(i, 0)\<close> to \<open>(i, n)\<close> and the horizontal line from \<open>(0, i)\<close> to
  \<open>(n, i)\<close>: \<open>n + 1\<close> lines of each kind, \<open>2 * (n + 1)\<close> strokes.
\<close>

theorem gridlines_overlay:
  assumes "gridSize s = of_nat n"
  shows "exportPNG True s =
           exportPNG False s
           @ [SetStrokeStyle ''#e5e7eb'', SetLineWidth (1 / 50)]
           @ concat (map (\<lambda>i. [BeginPath, MoveTo (of_nat i) 0, LineTo (of_nat i) (of_nat n), Stroke,
                                 BeginPath, MoveTo 0 (of_nat i), LineTo (of_nat n) (of_nat i), Stroke])
                         [0..<n + 1]) \<and>
         length (filter (\<lambda>c. c = Stroke) (for_le 0 (gridSize s) (gridLines s))) = 2 * (n + 1)"
proof -
  have f: "for_le 0 (gridSize s) (gridLines s) = concat (map (gridLines s) [0..<Suc n])"
    unfolding assms by (rule for_le_of_nat)
  have g: "gridLines s = (\<lambda>i. [BeginPath, MoveTo (of_nat i) 0, LineTo (of_nat i) (of_nat n), Stroke,
                                 BeginPath, MoveTo 0 (of_nat i), LineTo (of_nat n) (of_nat i), Stroke])"
    by (rule ext) (simp add: gridLines_def assms)
  have w: "(2 / 100 :: rat) = 1 / 50" by simp
  have 1: "exportPNG True s =
           exportPNG False s
           @ [SetStrokeStyle ''#e5e7eb'', SetLineWidth (1 / 50)]
           @ concat (map (gridLines s) [0..<n + 1])"
    by (simp add: exportPNG_def f w del: upt_Suc)
  have 2: "length (filter (\<lambda>c. c = Stroke) (for_le 0 (gridSize s) (gridLines s))) = 2 * (n + 1)"
    unfolding f strokes_gridLines by simp
  from 1 2 show ?thesis unfolding g by blast
qed

theorem gridlines_overlay_witness:
  "gridSize small = of_nat 2 \<and>
   exportPNG True small =
     exportPNG False small
     @ [SetStrokeStyle ''#e5e7eb'', SetLineWidth (1 / 50),
        BeginPath, MoveTo 0 0, LineTo 0 2, Stroke, BeginPath, MoveTo 0 0, LineTo 2 0, Stroke,
        BeginPath, MoveTo 1 0, LineTo 1 2, Stroke, BeginPath, MoveTo 0 1, LineTo 2 1, Stroke,
        BeginPath, MoveTo 2 0, LineTo 2 2, Stroke, BeginPath, MoveTo 0 2, LineTo 2 2, Stroke]"
proof -
  have g: "gridSize small = of_nat 2" by (simp add: small_def)
  have u: "[0..<2 + 1] = [0, 1, 2::nat]" by (simp add: upt_rec)
  from gridlines_overlay[OF g] show ?thesis unfolding u using g by simp
qed

end
